theory Spec2Isabelle
  imports Main
begin

section \<open>Text\<close>

text \<open>
  In the server, decoded text (Python \<open>str\<close>) is a \<open>string\<close>. The embedding of the
  server covers ASCII text: on code points below 128 the functions \<open>is_space\<close> and
  \<open>upper_char\<close> below agree with Python's \<open>str.isspace\<close> and \<open>str.upper\<close>. The line
  terminator of the protocol is the character \<open>CHR 0x0A\<close>, written \<open>\<newline>\<close> inside
  literals. In the client, whose decoding step is modelled, a text is a list of code
  points.
\<close>

definition nl :: char where
  "nl = CHR 0x0A"

section \<open>What a blocking read can deliver\<close>

text \<open>
  A blocking \<open>sock.recv(1024)\<close> either delivers bytes (none at all means the peer has
  shut the connection down), raises \<open>ConnectionResetError\<close>, or raises some other
  exception, whose \<open>str(e)\<close> is carried along. A byte is a \<open>char\<close>, which has 256 values.
  The reads of one connection are a list of such results, in arrival order.

  The server decodes in the same expression, \<open>recv(1024).decode('utf-8')\<close>: there
  \<open>Data\<close> carries the decoded text, ASCII text being its own encoding, and a failed
  decode is an \<open>Error\<close>. The client decodes in a statement of its own, modelled below:
  there \<open>Data\<close> carries the bytes as they were received.
\<close>

datatype recv = Data string | Reset | Error string

section \<open>client.py: decoding the received bytes\<close>

text \<open>
  The text the client holds is a Python \<open>str\<close> of any Unicode characters: a list of
  code points.
\<close>

type_synonym byte = char

type_synonym codepoints = "nat list"

text \<open>
  \<open>bytes.decode('utf-8')\<close> with the default strict error handling. A byte below
  \<open>0x80\<close> is a character; a lead byte \<open>0xC2\<close> to \<open>0xDF\<close> takes one continuation byte,
  \<open>0xE0\<close> to \<open>0xEF\<close> two, \<open>0xF0\<close> to \<open>0xF4\<close> three; a continuation byte lies between
  \<open>0x80\<close> and \<open>0xBF\<close>, the first one in a narrower range after the lead bytes \<open>0xE0\<close>
  (no overlong form), \<open>0xED\<close> (no surrogate), \<open>0xF0\<close> (no overlong form) and \<open>0xF4\<close>
  (nothing above \<open>0x10FFFF\<close>). Every other byte sequence, a sequence that stops before
  its last continuation byte included, raises \<open>UnicodeDecodeError\<close>.
\<close>

definition continuation :: "byte \<Rightarrow> bool" where
  "continuation b \<longleftrightarrow> 0x80 \<le> (of_char b :: nat) \<and> (of_char b :: nat) \<le> 0xBF"

definition second_ok :: "nat \<Rightarrow> byte \<Rightarrow> bool" where
  "second_ok lead b \<longleftrightarrow>
     (let n = (of_char b :: nat)
      in if lead = 0xE0 then 0xA0 \<le> n \<and> n \<le> 0xBF
         else if lead = 0xED then 0x80 \<le> n \<and> n \<le> 0x9F
         else if lead = 0xF0 then 0x90 \<le> n \<and> n \<le> 0xBF
         else if lead = 0xF4 then 0x80 \<le> n \<and> n \<le> 0x8F
         else 0x80 \<le> n \<and> n \<le> 0xBF)"

text \<open>The six bits that a continuation byte carries.\<close>

definition payload :: "byte \<Rightarrow> nat" where
  "payload b = (of_char b :: nat) - 0x80"

text \<open>
  The first character of a byte sequence and the bytes after it; \<open>None\<close> when the
  sequence does not start with the encoding of a character.
\<close>

fun decode_one :: "byte list \<Rightarrow> (nat \<times> byte list) option" where
  "decode_one [] = None"
| "decode_one (b # bs) =
     (let n = (of_char b :: nat)
      in if n < 0x80 then Some (n, bs)
         else if 0xC2 \<le> n \<and> n \<le> 0xDF then
           (case bs of
              b1 # rest \<Rightarrow>
                if continuation b1 then Some ((n - 0xC0) * 0x40 + payload b1, rest) else None
            | _ \<Rightarrow> None)
         else if 0xE0 \<le> n \<and> n \<le> 0xEF then
           (case bs of
              b1 # b2 # rest \<Rightarrow>
                if second_ok n b1 \<and> continuation b2
                then Some ((n - 0xE0) * 0x1000 + payload b1 * 0x40 + payload b2, rest)
                else None
            | _ \<Rightarrow> None)
         else if 0xF0 \<le> n \<and> n \<le> 0xF4 then
           (case bs of
              b1 # b2 # b3 # rest \<Rightarrow>
                if second_ok n b1 \<and> continuation b2 \<and> continuation b3
                then Some ((n - 0xF0) * 0x40000 + payload b1 * 0x1000 + payload b2 * 0x40
                           + payload b3, rest)
                else None
            | _ \<Rightarrow> None)
         else None)"

text \<open>\<open>data.decode('utf-8')\<close>; \<open>None\<close> stands for the raised \<open>UnicodeDecodeError\<close>.\<close>

function decode_utf8 :: "byte list \<Rightarrow> codepoints option" where
  "decode_utf8 bs =
     (if bs = [] then Some []
      else (case decode_one bs of
              None \<Rightarrow> None
            | Some (cp, rest) \<Rightarrow>
                (case decode_utf8 rest of None \<Rightarrow> None | Some t \<Rightarrow> Some (cp # t))))"
  by pat_completeness auto
termination
proof (relation "measure length")
  show "wf (measure length)"
    by simp
next
  fix bs :: "byte list" and x :: "nat \<times> byte list" and cp :: nat and rest :: "byte list"
  assume "bs \<noteq> []" and "decode_one bs = Some x" and "(cp, rest) = x"
  then have "decode_one bs = Some (cp, rest)"
    by simp
  then have "length rest < length bs"
    by (cases bs) (auto simp add: Let_def split: if_splits list.splits)
  then show "(rest, bs) \<in> measure length"
    by simp
qed

declare decode_utf8.simps [simp del]

section \<open>client.py: the Line Framer of the receive loop\<close>

text \<open>The newline character of a text.\<close>

definition text_nl :: nat where
  "text_nl = 10"

text \<open>
  \<open>line, buffer = buffer.split('\n', 1)\<close>, executed only when the buffer holds a
  newline: the text before the first newline, and the text after it.
\<close>

definition split_first_nl :: "codepoints \<Rightarrow> codepoints \<times> codepoints" where
  "split_first_nl buffer =
     (takeWhile (\<lambda>c. c \<noteq> text_nl) buffer, tl (dropWhile (\<lambda>c. c \<noteq> text_nl) buffer))"

text \<open>
  The inner loop \<open>while '\n' in buffer: line, buffer = buffer.split('\n', 1); print(...)\<close>.
  It returns the lines it printed, in order, and the buffer it leaves.
\<close>

function drain :: "codepoints \<Rightarrow> codepoints list \<times> codepoints" where
  "drain buffer =
     (if text_nl \<in> set buffer
      then (case split_first_nl buffer of (line, rest) \<Rightarrow>
              (case drain rest of (lines, buffer') \<Rightarrow> (line # lines, buffer')))
      else ([], buffer))"
  by pat_completeness auto
termination
proof (relation "measure length")
  show "wf (measure length)"
    by simp
next
  fix buffer line rest :: codepoints
  assume has_nl: "text_nl \<in> set buffer" and "(line, rest) = split_first_nl buffer"
  then have rest: "rest = tl (dropWhile (\<lambda>c. c \<noteq> text_nl) buffer)"
    by (simp add: split_first_nl_def)
  from has_nl have "dropWhile (\<lambda>c. c \<noteq> text_nl) buffer \<noteq> []"
    by simp
  then have "length rest < length (dropWhile (\<lambda>c. c \<noteq> text_nl) buffer)"
    unfolding rest by (cases "dropWhile (\<lambda>c. c \<noteq> text_nl) buffer") simp_all
  also have "\<dots> \<le> length buffer"
    by (rule length_dropWhile_le)
  finally show "(rest, buffer) \<in> measure length"
    by simp
qed

declare drain.simps [simp del]

text \<open>
  One feed of the framer, lines 48 to 51: \<open>buffer += data.decode('utf-8')\<close>, then the
  inner loop. When the decode raises, the buffer has not been assigned and no line
  has been printed: the result is \<open>None\<close>.
\<close>

definition feed :: "codepoints \<Rightarrow> byte list \<Rightarrow> (codepoints list \<times> codepoints) option" where
  "feed buffer data =
     (case decode_utf8 data of
        None \<Rightarrow> None
      | Some decoded \<Rightarrow> Some (drain (buffer @ decoded)))"

text \<open>
  Feeding a sequence of chunks, the buffer carried from one feed to the next. The
  exception of a failed decode leaves the receive loop (lines 57 to 60): the chunk
  that raised it and the chunks after it yield nothing, and the buffer stays as it
  was. The result holds the lines yielded, the buffer left, and whether every chunk
  was fed (\<open>True\<close>) or the exception ended the feeding (\<open>False\<close>).
\<close>

fun feed_all :: "codepoints \<Rightarrow> byte list list \<Rightarrow> codepoints list \<times> codepoints \<times> bool" where
  "feed_all buffer [] = ([], buffer, True)"
| "feed_all buffer (data # chunks) =
     (case feed buffer data of
        None \<Rightarrow> ([], buffer, False)
      | Some (lines, buffer') \<Rightarrow>
          (case feed_all buffer' chunks of
             (lines', buffer'', ok) \<Rightarrow> (lines @ lines', buffer'', ok)))"

text \<open>
  What the receive loop prints: \<open>print(f"\r{line}\n> ")\<close> for a line,
  \<open>print("\nDisconnected from server.")\<close>, \<open>print("\nConnection to server was reset.")\<close>,
  and \<open>print(f"\nError receiving message: {e}")\<close>, for an exception of \<open>recv\<close> with its
  \<open>str(e)\<close> or for the \<open>UnicodeDecodeError\<close> of the decode.
\<close>

datatype shown =
    Line codepoints
  | Disconnected
  | ConnectionWasReset
  | ReceiveError string
  | DecodeError





section \<open>server.py: text handling of the connection handler\<close>

text \<open>
  \<open>str.strip()\<close> removes leading and trailing whitespace. In ASCII the characters for
  which \<open>str.isspace\<close> holds are tab, line feed, vertical tab, form feed, carriage
  return, the four separators \<open>0x1C\<close> to \<open>0x1F\<close>, and the space.
\<close>

definition is_space :: "char \<Rightarrow> bool" where
  "is_space c \<longleftrightarrow> (of_char c :: nat) \<in> {9, 10, 11, 12, 13, 28, 29, 30, 31, 32}"

definition lstrip :: "string \<Rightarrow> string" where
  "lstrip s = dropWhile is_space s"

definition rstrip :: "string \<Rightarrow> string" where
  "rstrip s = rev (dropWhile is_space (rev s))"

definition strip :: "string \<Rightarrow> string" where
  "strip s = rstrip (lstrip s)"

text \<open>\<open>str.upper()\<close>: the letters \<open>a\<close> to \<open>z\<close> move to \<open>A\<close> to \<open>Z\<close>.\<close>

definition upper_char :: "char \<Rightarrow> char" where
  "upper_char c =
     (let n = (of_char c :: nat) in if 97 \<le> n \<and> n \<le> 122 then char_of (n - 32) else c)"

definition upper :: "string \<Rightarrow> string" where
  "upper s = map upper_char s"

text \<open>
  \<open>data.split(' ', 1)\<close>: at most one split, at the first space; a text without a
  space (the empty text too) comes back as the only part.
\<close>

definition split_first_space :: "string \<Rightarrow> string list" where
  "split_first_space data =
     (if CHR '' '' \<in> set data
      then [takeWhile (\<lambda>c. c \<noteq> CHR '' '') data, tl (dropWhile (\<lambda>c. c \<noteq> CHR '' '') data)]
      else [data])"

text \<open>\<open>command = parts[0].upper()\<close> and \<open>arg = parts[1] if len(parts) > 1 else ''\<close>.\<close>

definition command_of :: "string \<Rightarrow> string" where
  "command_of data = upper (split_first_space data ! 0)"

definition arg_of :: "string \<Rightarrow> string" where
  "arg_of data =
     (let parts = split_first_space data in if length parts > 1 then parts ! 1 else [])"

section \<open>server.py: sockets, the registry and the server object\<close>

text \<open>
  A socket object is known by its identity \<open>fd\<close>; the store \<open>socks\<close> of the server
  state holds, for every socket, whether this process has closed it and the bytes
  written to it so far. \<open>self.clients\<close> is a Python dict, kept here in insertion order
  as a list of pairs with distinct keys.
\<close>

type_synonym fd = nat

type_synonym address = "string \<times> nat"

record sock =
  closed :: bool
  sent :: string

record server =
  running :: bool
  server_socket :: "fd option"
  clients :: "(address \<times> fd) list"
  socks :: "fd \<Rightarrow> sock"

text \<open>\<open>d[k] = v\<close>, \<open>k in d\<close>, \<open>del d[k]\<close> (for a key that is present) and \<open>d.values()\<close>.\<close>

fun dict_set :: "'k \<Rightarrow> 'v \<Rightarrow> ('k \<times> 'v) list \<Rightarrow> ('k \<times> 'v) list" where
  "dict_set k v [] = [(k, v)]"
| "dict_set k v ((k', v') # d) = (if k' = k then (k, v) # d else (k', v') # dict_set k v d)"

definition dict_has :: "'k \<Rightarrow> ('k \<times> 'v) list \<Rightarrow> bool" where
  "dict_has k d \<longleftrightarrow> k \<in> set (map fst d)"

definition dict_del :: "'k \<Rightarrow> ('k \<times> 'v) list \<Rightarrow> ('k \<times> 'v) list" where
  "dict_del k d = filter (\<lambda>kv. fst kv \<noteq> k) d"

definition dict_values :: "('k \<times> 'v) list \<Rightarrow> 'v list" where
  "dict_values d = map snd d"

text \<open>\<open>socket.close()\<close>; closing a closed socket changes nothing.\<close>

definition close_sock :: "fd \<Rightarrow> server \<Rightarrow> server" where
  "close_sock s st = st\<lparr>socks := (socks st)(s := (socks st s)\<lparr>closed := True\<rparr>)\<rparr>"

text \<open>
  \<open>MCPServer._send_response\<close>: \<open>sendall\<close> of the message and a newline. On a socket
  this process has closed, \<open>sendall\<close> raises \<open>OSError\<close>, which the method catches and
  logs: nothing is written. Writes to an open socket are taken to succeed.
\<close>

definition send_response :: "fd \<Rightarrow> string \<Rightarrow> server \<Rightarrow> server" where
  "send_response s message st =
     (if closed (socks st s) then st
      else st\<lparr>socks := (socks st)(s := (socks st s)\<lparr>sent := sent (socks st s) @ message @ [nl]\<rparr>)\<rparr>)"

subsection \<open>Command handlers\<close>

definition handle_hello :: "fd \<Rightarrow> string \<Rightarrow> server \<Rightarrow> server" where
  "handle_hello s arg st =
     (let name = (if arg \<noteq> [] then arg else ''Guest'')
      in send_response s (''Hello, '' @ name @ ''! Welcome to MCP Server.'') st)"

definition handle_echo :: "fd \<Rightarrow> string \<Rightarrow> server \<Rightarrow> server" where
  "handle_echo s arg st =
     (if arg = [] then send_response s ''ECHO: You didn't provide any text to echo.'' st
      else send_response s (''ECHO: '' @ arg) st)"

definition handle_exit :: "fd \<Rightarrow> string \<Rightarrow> server \<Rightarrow> server" where
  "handle_exit s arg st =
     (let st' = send_response s ''Goodbye!'' st
      in if s \<in> set (dict_values (clients st')) then close_sock s st' else st')"

definition help_text :: string where
  "help_text = ''\<newline>Available Commands:\<newline>  HELLO [name]  - Greet the server\<newline>  ECHO <text>   - Echo back the provided text\<newline>  EXIT          - Disconnect from the server\<newline>  HELP          - Show this help message\<newline>''"

definition handle_help :: "fd \<Rightarrow> string \<Rightarrow> server \<Rightarrow> server" where
  "handle_help s arg st = send_response s (strip help_text) st"

text \<open>\<open>self.command_handlers\<close>, the dict from keyword to handler.\<close>

definition command_handlers :: "(string \<times> (fd \<Rightarrow> string \<Rightarrow> server \<Rightarrow> server)) list" where
  "command_handlers =
     [(''HELLO'', handle_hello), (''ECHO'', handle_echo), (''EXIT'', handle_exit),
      (''HELP'', handle_help)]"

subsection \<open>The connection handler\<close>

text \<open>Lines 98 to 105 of \<open>_handle_client\<close>: parse the stripped read and dispatch it.\<close>

definition process_command :: "fd \<Rightarrow> string \<Rightarrow> server \<Rightarrow> server" where
  "process_command s data st =
     (let command = command_of data; arg = arg_of data
      in case map_of command_handlers command of
           Some handler \<Rightarrow> handler s arg st
         | None \<Rightarrow> send_response s (''ERROR: Unknown command: '' @ command) st)"

text \<open>
  The loop \<open>while self.running\<close> of \<open>_handle_client\<close>, run on the reads \<open>evs\<close> of the
  connection. The first component of the result says whether the loop has ended
  (\<open>True\<close>) or is blocked in \<open>recv\<close>, the reads delivered so far being used up
  (\<open>False\<close>). A \<open>recv\<close> on a socket this process has closed raises \<open>OSError\<close>, which
  the handler of \<open>Exception\<close> reports and which ends the loop.
\<close>

fun serve :: "fd \<Rightarrow> recv list \<Rightarrow> server \<Rightarrow> bool \<times> server" where
  "serve s evs st =
     (if \<not> running st then (True, st)
      else if closed (socks st s) then
        (True, send_response s ''ERROR: [Errno 9] Bad file descriptor'' st)
      else (case evs of
          [] \<Rightarrow> (False, st)
        | Data raw # evs' \<Rightarrow>
            (let data = strip raw
             in if data = [] then (True, st) else serve s evs' (process_command s data st))
        | Reset # evs' \<Rightarrow> (True, st)
        | Error msg # evs' \<Rightarrow> (True, send_response s (''ERROR: '' @ msg) st)))"

declare serve.simps [simp del]

text \<open>The \<open>finally\<close> block of \<open>_handle_client\<close>: the registry entry goes, the socket closes.\<close>

definition remove_client :: "address \<Rightarrow> server \<Rightarrow> server" where
  "remove_client addr st =
     (if dict_has addr (clients st) then st\<lparr>clients := dict_del addr (clients st)\<rparr> else st)"

definition cleanup :: "address \<Rightarrow> fd \<Rightarrow> server \<Rightarrow> server" where
  "cleanup addr s st = close_sock s (remove_client addr st)"

definition welcome_banner :: string where
  "welcome_banner = ''MCP Server: Connected. Type 'HELP' for available commands.''"

text \<open>\<open>MCPServer._handle_client\<close>. The cleanup runs once the loop has ended.\<close>

definition register_client :: "address \<Rightarrow> fd \<Rightarrow> server \<Rightarrow> server" where
  "register_client addr s st = st\<lparr>clients := dict_set addr s (clients st)\<rparr>"

definition handle_client :: "address \<Rightarrow> fd \<Rightarrow> recv list \<Rightarrow> server \<Rightarrow> bool \<times> server" where
  "handle_client addr s evs st =
     (case serve s evs (send_response s welcome_banner (register_client addr s st)) of
        (ended, st') \<Rightarrow> if ended then (True, cleanup addr s st') else (False, st'))"

subsection \<open>Shutdown\<close>

text \<open>
  \<open>MCPServer.stop\<close>: the flag, the listening socket, then the loop over
  \<open>self.clients.values()\<close> and \<open>self.clients.clear()\<close>.
\<close>

definition close_all_clients :: "server \<Rightarrow> server" where
  "close_all_clients st = (fold close_sock (dict_values (clients st)) st)\<lparr>clients := []\<rparr>"

definition stop :: "server \<Rightarrow> server" where
  "stop st =
     (let st1 = st\<lparr>running := False\<rparr>;
          st2 = (case server_socket st1 of Some s \<Rightarrow> close_sock s st1 | None \<Rightarrow> st1)
      in close_all_clients st2)"

text \<open>
  \<open>MCPServer.__init__\<close>: no listening socket, an empty registry, not running. No socket
  has been closed or written to.
\<close>

definition new_server :: server where
  "new_server =
     \<lparr>running = False, server_socket = None, clients = [],
      socks = (\<lambda>s. \<lparr>closed = False, sent = []\<rparr>)\<rparr>"

section \<open>server.py: start-up\<close>

text \<open>
  The exceptions that matter at start-up, each with its \<open>str(e)\<close>. \<open>OSError\<close> and
  every other error derive from \<open>Exception\<close>; \<open>KeyboardInterrupt\<close> does not.
\<close>

datatype exn = OSError string | KeyboardInterrupt | OtherException string

fun is_Exception :: "exn \<Rightarrow> bool" where
  "is_Exception (OSError msg) = True"
| "is_Exception KeyboardInterrupt = False"
| "is_Exception (OtherException msg) = True"

fun str :: "exn \<Rightarrow> string" where
  "str (OSError msg) = msg"
| "str KeyboardInterrupt = []"
| "str (OtherException msg) = msg"

text \<open>
  What the process lets the operator see, in order: the \<open>print\<close> calls of \<open>main\<close> and
  the log records of \<open>start\<close>, \<open>stop\<close> and \<open>main\<close>.
\<close>

datatype report =
    Starting nat
  | Started nat
  | ServerError string
  | Stopped
  | PortInUse nat nat
  | FailedToStart string
  | ShuttingDown
  | FatalError string

text \<open>
  The surroundings of \<open>start\<close>: for a port, the exception that creating, binding and
  listening on the socket raises (\<open>None\<close> when they succeed), and the exception that
  leaves the accept loop of a server listening there (\<open>None\<close> when the loop ends
  because \<open>running\<close> has become false).
\<close>

record env =
  bind_raises :: "nat \<Rightarrow> exn option"
  accept_loop_raises :: "nat \<Rightarrow> exn option"

text \<open>The body of the \<open>try\<close> in \<open>MCPServer.start\<close>.\<close>

definition start_body :: "env \<Rightarrow> nat \<Rightarrow> report list \<times> exn option" where
  "start_body e port =
     (case bind_raises e port of
        Some x \<Rightarrow> ([], Some x)
      | None \<Rightarrow> ([Started port], accept_loop_raises e port))"

text \<open>
  \<open>MCPServer.start\<close>: \<open>except Exception\<close> logs and swallows, \<open>finally\<close> stops the server.
  The second component is the exception that leaves \<open>start\<close>, if any.
\<close>

definition start :: "env \<Rightarrow> nat \<Rightarrow> report list \<times> exn option" where
  "start e port =
     (case start_body e port of
        (out, None) \<Rightarrow> (out @ [Stopped], None)
      | (out, Some x) \<Rightarrow>
          if is_Exception x then (out @ [ServerError (str x), Stopped], None)
          else (out @ [Stopped], Some x))"

text \<open>\<open>needle in hay\<close> on texts.\<close>

fun contains :: "string \<Rightarrow> string \<Rightarrow> bool" where
  "contains needle [] \<longleftrightarrow> needle = []"
| "contains needle (c # hay) \<longleftrightarrow> take (length needle) (c # hay) = needle \<or> contains needle hay"

definition max_attempts :: nat where
  "max_attempts = 5"

text \<open>
  The loop \<open>for attempt in range(max_attempts)\<close> of \<open>main\<close>, on the attempts still to
  come, and \<open>main\<close> itself. The result is the exit code and what was shown.
\<close>

fun attempts :: "env \<Rightarrow> nat list \<Rightarrow> nat \<Rightarrow> report list \<Rightarrow> int \<times> report list" where
  "attempts e [] port shown = (0, shown)"
| "attempts e (attempt # rest) port shown =
     (case start e port of (out, raised) \<Rightarrow>
        (let shown' = shown @ [Starting port] @ out
         in case raised of
              None \<Rightarrow> (0, shown')
            | Some (OSError msg) \<Rightarrow>
                if contains ''Address already in use'' msg \<and> attempt < max_attempts - 1
                then attempts e rest (port + 1) (shown' @ [PortInUse port (port + 1)])
                else (1, shown' @ [FailedToStart msg])
            | Some KeyboardInterrupt \<Rightarrow> (0, shown' @ [ShuttingDown, Stopped])
            | Some (OtherException msg) \<Rightarrow> (1, shown' @ [FatalError msg, Stopped])))"

definition main :: "env \<Rightarrow> int \<times> report list" where
  "main e = attempts e [0..<max_attempts] 5001 []"

section \<open>Notions used to state the properties\<close>

text \<open>
  The server state after \<open>bytes\<close> have gone out on the socket \<open>s\<close>, everything else
  as it was.
\<close>

definition written :: "fd \<Rightarrow> string \<Rightarrow> server \<Rightarrow> server" where
  "written s bytes st =
     st\<lparr>socks := (socks st)(s := (socks st s)\<lparr>sent := sent (socks st s) @ bytes\<rparr>)\<rparr>"



text \<open>An ASCII literal as a text of the client.\<close>

definition text_of :: "string \<Rightarrow> codepoints" where
  "text_of s = map of_char s"


text \<open>
  The dispatcher table of the specification, rows HELLO and ECHO, written from the
  specification's words: HELLO answers \<open>Hello, <name>! Welcome to MCP Server.\<close> with
  the name defaulting to \<open>Guest\<close>; ECHO answers
  \<open>ECHO: You didn't provide any text to echo.\<close> when the text is absent and
  \<open>ECHO: <text>\<close> otherwise. An absent argument is the empty text.
\<close>

definition spec_hello_response :: "string \<Rightarrow> string" where
  "spec_hello_response name =
     (if name = [] then ''Hello, Guest! Welcome to MCP Server.''
      else ''Hello, '' @ name @ ''! Welcome to MCP Server.'')"

definition spec_echo_response :: "string \<Rightarrow> string" where
  "spec_echo_response txt =
     (if txt = [] then ''ECHO: You didn't provide any text to echo.'' else ''ECHO: '' @ txt)"

text \<open>
  The registry over time: a connection handler registers its peer address on entry
  (line 82) and removes it in its \<open>finally\<close> block (lines 118 and 119). In a history
  where every client has disconnected, each registration is followed by the removal
  of the same address.
\<close>

datatype registry_op = Connect address fd | Disconnect address

fun registry_step :: "registry_op \<Rightarrow> server \<Rightarrow> server" where
  "registry_step (Connect addr s) st = register_client addr s st"
| "registry_step (Disconnect addr) st = remove_client addr st"

fun all_disconnected :: "registry_op list \<Rightarrow> bool" where
  "all_disconnected [] \<longleftrightarrow> True"
| "all_disconnected (Connect addr s # ops) \<longleftrightarrow> Disconnect addr \<in> set ops \<and> all_disconnected ops"
| "all_disconnected (Disconnect addr # ops) \<longleftrightarrow> all_disconnected ops"

section \<open>Decoding a concatenation\<close>




section \<open>The Line Framer loses nothing\<close>

















section \<open>The connection handler, one read at a time\<close>

lemma written_fields [simp]:
  "running (written s bytes st) = running st"
  "clients (written s bytes st) = clients st"
  "server_socket (written s bytes st) = server_socket st"
  "closed (socks (written s bytes st) s') = closed (socks st s')"
  "sent (socks (written s bytes st) s) = sent (socks st s) @ bytes"
  by (simp_all add: written_def)

lemma written_written: "written s b2 (written s b1 st) = written s (b1 @ b2) st"
  by (simp add: written_def)

lemma send_response_open:
  "\<not> closed (socks st s) \<Longrightarrow> send_response s message st = written s (message @ [nl]) st"
  by (simp add: send_response_def written_def)

lemma send_response_closed:
  "closed (socks st s) \<Longrightarrow> send_response s message st = st"
  by (simp add: send_response_def)

lemma close_sock_fields [simp]:
  "running (close_sock s st) = running st"
  "clients (close_sock s st) = clients st"
  "closed (socks (close_sock s st) s)"
  "sent (socks (close_sock s st) s') = sent (socks st s')"
  by (simp_all add: close_sock_def)

lemma serve_data:
  assumes "running st" and "\<not> closed (socks st s)" and "strip raw \<noteq> []"
  shows "serve s (Data raw # evs) st = serve s evs (process_command s (strip raw) st)"
  using assms by (subst serve.simps) simp

lemma serve_blank:
  assumes "strip raw = []"
  shows "serve s (Data raw # evs) st = (True, st)"
  using assms by (subst serve.simps) (simp add: send_response_def)


lemma map_of_command_handlers_None:
  "map_of command_handlers command = None \<longleftrightarrow> command \<notin> {''HELLO'', ''ECHO'', ''EXIT'', ''HELP''}"
  by (simp add: command_handlers_def)

lemma process_unknown:
  assumes "\<not> closed (socks st s)" and "command_of data \<notin> {''HELLO'', ''ECHO'', ''EXIT'', ''HELP''}"
  shows "process_command s data st = written s (''ERROR: Unknown command: '' @ command_of data @ [nl]) st"
proof -
  from assms(2) have "map_of command_handlers (command_of data) = None"
    by (simp add: map_of_command_handlers_None)
  then show ?thesis
    using assms(1) by (simp add: process_command_def send_response_open)
qed


text \<open>
  Claim C4. A read whose keyword, once in upper case, is none of HELLO, ECHO, EXIT
  and HELP is answered with \<open>ERROR: Unknown command: \<close> followed by that keyword and a
  newline, and nothing else happens to the server: the loop goes on to the next read
  of the same connection, with the socket still open.
\<close>

theorem unknown_command_reply:
  assumes "running st" and "\<not> closed (socks st s)" and "strip raw \<noteq> []"
    and "command_of (strip raw) \<notin> {''HELLO'', ''ECHO'', ''EXIT'', ''HELP''}"
  shows "serve s (Data raw # evs) st =
           serve s evs (written s (''ERROR: Unknown command: '' @ command_of (strip raw) @ [nl]) st)"
  using assms by (simp add: serve_data process_unknown)


theorem unknown_command_reply_witness:
  "running (new_server\<lparr>running := True\<rparr>) \<and>
   \<not> closed (socks (new_server\<lparr>running := True\<rparr>) 3) \<and>
   strip ''foo\<newline>'' \<noteq> [] \<and>
   command_of (strip ''foo\<newline>'') \<notin> {''HELLO'', ''ECHO'', ''EXIT'', ''HELP''} \<and>
   serve 3 [Data ''foo\<newline>'', Data ''hello Ann\<newline>''] (new_server\<lparr>running := True\<rparr>) =
     (False, written 3 ''ERROR: Unknown command: FOO\<newline>Hello, Ann! Welcome to MCP Server.\<newline>''
        (new_server\<lparr>running := True\<rparr>))"
proof -
  let ?st = "new_server\<lparr>running := True\<rparr>"
  have run: "running ?st" and opn: "\<not> closed (socks ?st 3)"
    by (simp_all add: new_server_def)
  have data: "strip ''foo\<newline>'' = ''foo''" and cmd: "command_of ''foo'' = ''FOO''"
    by code_simp+
  have unknown: "command_of (strip ''foo\<newline>'') \<notin> {''HELLO'', ''ECHO'', ''EXIT'', ''HELP''}"
    by (simp add: data cmd)
  have nonempty: "strip ''foo\<newline>'' \<noteq> []"
    by (simp add: data)
  have hello: "strip ''hello Ann\<newline>'' = ''hello Ann''" "command_of ''hello Ann'' = ''HELLO''"
    "arg_of ''hello Ann'' = ''Ann''"
    by code_simp+
  have "serve 3 [Data ''foo\<newline>'', Data ''hello Ann\<newline>''] ?st =
          serve 3 [Data ''hello Ann\<newline>'']
            (written 3 (''ERROR: Unknown command: '' @ command_of (strip ''foo\<newline>'') @ [nl]) ?st)"
    using unknown_command_reply [OF run opn nonempty unknown] .
  also have "\<dots> = (False, written 3 ''ERROR: Unknown command: FOO\<newline>Hello, Ann! Welcome to MCP Server.\<newline>'' ?st)"
    using run opn
    by (simp add: serve_data hello data cmd process_command_def command_handlers_def handle_hello_def
        send_response_open written_written serve.simps [of _ "[]"] nl_def)
  finally show ?thesis
    using run opn nonempty unknown by simp
qed

section \<open>Keyword and argument\<close>

lemma of_char_upper_char:
  "(of_char (upper_char c) :: nat) =
     (if 97 \<le> (of_char c :: nat) \<and> (of_char c :: nat) \<le> 122 then of_char c - 32 else of_char c)"
  by (auto simp add: upper_char_def Let_def)

lemma upper_char_is_space:
  assumes "upper_char c = upper_char d"
  shows "is_space c \<longleftrightarrow> is_space d"
proof -
  from assms have "(of_char (upper_char c) :: nat) = of_char (upper_char d)"
    by simp
  then show ?thesis
    unfolding of_char_upper_char is_space_def by (auto split: if_splits)
qed

lemma is_blank_iff: "c = CHR '' '' \<longleftrightarrow> (of_char c :: nat) = 32"
proof -
  have "(of_char c :: nat) = of_char (CHR '' '') \<longleftrightarrow> c = CHR '' ''"
    by (rule of_char_eq_iff)
  then show ?thesis by simp
qed

lemma upper_char_blank:
  assumes "upper_char c = upper_char d"
  shows "c \<noteq> CHR '' '' \<longleftrightarrow> d \<noteq> CHR '' ''"
proof -
  from assms have "(of_char (upper_char c) :: nat) = of_char (upper_char d)"
    by simp
  then show ?thesis
    unfolding of_char_upper_char is_blank_iff by (auto split: if_splits)
qed

lemma upper_eq_iff:
  "upper xs = upper ys \<longleftrightarrow> list_all2 (\<lambda>c d. upper_char c = upper_char d) xs ys"
  by (simp add: upper_def list.rel_eq [symmetric] list.rel_map)

lemma dropWhile_related:
  assumes "list_all2 R xs ys" and "\<And>c d. R c d \<Longrightarrow> P c \<longleftrightarrow> P d"
  shows "list_all2 R (dropWhile P xs) (dropWhile P ys)"
  using assms by (induction rule: list_all2_induct) auto

lemma all_related:
  assumes "list_all2 R xs ys" and "\<And>c d. R c d \<Longrightarrow> P c \<longleftrightarrow> P d"
  shows "(\<forall>c\<in>set xs. P c) \<longleftrightarrow> (\<forall>d\<in>set ys. P d)"
  using assms by (induction rule: list_all2_induct) auto

lemma rstrip_append:
  "rstrip (xs @ ys) = (if \<forall>c\<in>set ys. is_space c then rstrip xs else xs @ rstrip ys)"
  by (simp add: rstrip_def dropWhile_append)

lemma lstrip_append:
  "lstrip (xs @ ys) = (if \<forall>c\<in>set xs. is_space c then lstrip ys else lstrip xs @ ys)"
  by (simp add: lstrip_def dropWhile_append)

lemma rstrip_append_spaces:
  "\<forall>c\<in>set ys. is_space c \<Longrightarrow> rstrip (xs @ ys) = rstrip xs"
  by (simp add: rstrip_append)

lemma rstrip_append_text:
  "\<not> (\<forall>c\<in>set ys. is_space c) \<Longrightarrow> rstrip (xs @ ys) = xs @ rstrip ys"
  by (auto simp add: rstrip_append)

lemma lstrip_append_spaces:
  "\<forall>c\<in>set xs. is_space c \<Longrightarrow> lstrip (xs @ ys) = lstrip ys"
  by (simp add: lstrip_append)

lemma lstrip_append_text:
  "\<not> (\<forall>c\<in>set xs. is_space c) \<Longrightarrow> lstrip (xs @ ys) = lstrip xs @ ys"
  by (auto simp add: lstrip_append)

lemma strip_related:
  assumes "list_all2 (\<lambda>c d. upper_char c = upper_char d) xs ys"
  shows "list_all2 (\<lambda>c d. upper_char c = upper_char d) (strip xs) (strip ys)"
proof -
  from assms have "list_all2 (\<lambda>c d. upper_char c = upper_char d) (lstrip xs) (lstrip ys)"
    unfolding lstrip_def by (rule dropWhile_related) (rule upper_char_is_space)
  then have "list_all2 (\<lambda>c d. upper_char c = upper_char d) (rev (lstrip xs)) (rev (lstrip ys))"
    by simp
  then have "list_all2 (\<lambda>c d. upper_char c = upper_char d)
      (dropWhile is_space (rev (lstrip xs))) (dropWhile is_space (rev (lstrip ys)))"
    by (rule dropWhile_related) (rule upper_char_is_space)
  then show ?thesis
    by (simp add: strip_def rstrip_def)
qed

lemma set_lstrip: "set (lstrip xs) \<subseteq> set xs"
  by (simp add: lstrip_def set_dropWhileD subsetI)

lemma set_rstrip: "set (rstrip xs) \<subseteq> set xs"
  using set_dropWhileD [of _ is_space "rev xs"] by (auto simp add: rstrip_def)

lemma set_strip: "set (strip xs) \<subseteq> set xs"
  using set_lstrip set_rstrip by (fastforce simp add: strip_def)

lemma command_of_no_blank:
  "CHR '' '' \<notin> set data \<Longrightarrow> command_of data = upper data"
  by (simp add: command_of_def split_first_space_def)

lemma arg_of_no_blank:
  "CHR '' '' \<notin> set data \<Longrightarrow> arg_of data = []"
  by (simp add: arg_of_def split_first_space_def)

lemma split_at_first_blank:
  assumes "CHR '' '' \<notin> set kw"
  shows "split_first_space (kw @ CHR '' '' # arg) = [kw, arg]"
  using assms by (auto simp add: split_first_space_def takeWhile_append dropWhile_append)

lemma command_of_blank:
  "CHR '' '' \<notin> set kw \<Longrightarrow> command_of (kw @ CHR '' '' # arg) = upper kw"
  by (simp add: command_of_def split_at_first_blank)

lemma arg_of_blank:
  "CHR '' '' \<notin> set kw \<Longrightarrow> arg_of (kw @ CHR '' '' # arg) = arg"
  by (simp add: arg_of_def split_at_first_blank)

lemma serve_read_cong:
  assumes "strip raw = [] \<longleftrightarrow> strip raw' = []"
    and "command_of (strip raw) = command_of (strip raw')"
    and "arg_of (strip raw) = arg_of (strip raw')"
  shows "serve s (Data raw # evs) st = serve s (Data raw' # evs) st"
  using assms
  by (simp add: serve.simps [of s "Data raw # evs"] serve.simps [of s "Data raw' # evs"]
      process_command_def Let_def)

lemma related_Nil_iff:
  "list_all2 R xs ys \<Longrightarrow> xs = [] \<longleftrightarrow> ys = []"
  by (cases xs; cases ys) simp_all

lemma keyword_only_case:
  assumes same: "upper kw' = upper kw" and no_blank: "CHR '' '' \<notin> set kw"
  shows "serve s (Data kw' # evs) st = serve s (Data kw # evs) st"
proof (rule serve_read_cong)
  from same have rel: "list_all2 (\<lambda>c d. upper_char c = upper_char d) kw' kw"
    by (simp add: upper_eq_iff)
  then have "(\<forall>c\<in>set kw'. c \<noteq> CHR '' '') \<longleftrightarrow> (\<forall>d\<in>set kw. d \<noteq> CHR '' '')"
    by (rule all_related) (rule upper_char_blank)
  with no_blank have no_blank': "CHR '' '' \<notin> set kw'"
    by auto
  from rel have srel: "list_all2 (\<lambda>c d. upper_char c = upper_char d) (strip kw') (strip kw)"
    by (rule strip_related)
  then show "strip kw' = [] \<longleftrightarrow> strip kw = []"
    by (rule related_Nil_iff)
  from no_blank no_blank' have nb: "CHR '' '' \<notin> set (strip kw)" "CHR '' '' \<notin> set (strip kw')"
    using set_strip by blast+
  from srel have "upper (strip kw') = upper (strip kw)"
    by (simp add: upper_eq_iff)
  with nb show "command_of (strip kw') = command_of (strip kw)"
    by (simp add: command_of_no_blank)
  from nb show "arg_of (strip kw') = arg_of (strip kw)"
    by (simp add: arg_of_no_blank)
qed


lemma is_space_blank: "is_space (CHR '' '')"
  by (simp add: is_space_def)

lemma keyword_with_arg_case:
  assumes same: "upper kw' = upper kw" and no_blank: "CHR '' '' \<notin> set kw"
  shows "serve s (Data (kw' @ CHR '' '' # arg) # evs) st = serve s (Data (kw @ CHR '' '' # arg) # evs) st"
proof -
  from same have rel: "list_all2 (\<lambda>c d. upper_char c = upper_char d) kw' kw"
    by (simp add: upper_eq_iff)
  then have "(\<forall>c\<in>set kw'. c \<noteq> CHR '' '') \<longleftrightarrow> (\<forall>d\<in>set kw. d \<noteq> CHR '' '')"
    by (rule all_related) (rule upper_char_blank)
  with no_blank have no_blank': "CHR '' '' \<notin> set kw'"
    by auto
  from rel have spaces: "(\<forall>c\<in>set kw'. is_space c) \<longleftrightarrow> (\<forall>d\<in>set kw. is_space d)"
    by (rule all_related) (rule upper_char_is_space)
  show ?thesis
  proof (cases "\<forall>d\<in>set kw. is_space d")
    case True
    with spaces have "\<forall>c\<in>set kw'. is_space c"
      by simp
    with True have "strip (kw' @ CHR '' '' # arg) = strip (kw @ CHR '' '' # arg)"
      by (simp add: strip_def lstrip_append_spaces)
    then show ?thesis
      by (simp add: serve.simps [of s "Data _ # evs"])
  next
    case False
    with spaces have False': "\<not> (\<forall>c\<in>set kw'. is_space c)"
      by simp
    let ?x = "lstrip kw" and ?x' = "lstrip kw'"
    from rel have xrel: "list_all2 (\<lambda>c d. upper_char c = upper_char d) ?x' ?x"
      unfolding lstrip_def by (rule dropWhile_related) (rule upper_char_is_space)
    from no_blank no_blank' have xnb: "CHR '' '' \<notin> set ?x" "CHR '' '' \<notin> set ?x'"
      using set_lstrip by blast+
    from False have l: "lstrip (kw @ CHR '' '' # arg) = ?x @ CHR '' '' # arg"
      by (rule lstrip_append_text)
    from False' have l': "lstrip (kw' @ CHR '' '' # arg) = ?x' @ CHR '' '' # arg"
      by (rule lstrip_append_text)
    show ?thesis
    proof (cases "\<forall>c\<in>set arg. is_space c")
      case True
      then have "\<forall>c\<in>set (CHR '' '' # arg). is_space c"
        by (simp add: is_space_blank)
      then have r: "strip (kw @ CHR '' '' # arg) = rstrip ?x"
        and r': "strip (kw' @ CHR '' '' # arg) = rstrip ?x'"
        unfolding strip_def l l' by (rule rstrip_append_spaces)+
      from xrel have "list_all2 (\<lambda>c d. upper_char c = upper_char d) (rev ?x') (rev ?x)"
        by simp
      then have "list_all2 (\<lambda>c d. upper_char c = upper_char d)
          (dropWhile is_space (rev ?x')) (dropWhile is_space (rev ?x))"
        by (rule dropWhile_related) (rule upper_char_is_space)
      then have rrel: "list_all2 (\<lambda>c d. upper_char c = upper_char d) (rstrip ?x') (rstrip ?x)"
        by (simp add: rstrip_def)
      from xnb have rnb: "CHR '' '' \<notin> set (rstrip ?x)" "CHR '' '' \<notin> set (rstrip ?x')"
        using set_rstrip by blast+
      show ?thesis
      proof (rule serve_read_cong)
        from rrel show "strip (kw' @ CHR '' '' # arg) = [] \<longleftrightarrow> strip (kw @ CHR '' '' # arg) = []"
          unfolding r r' by (rule related_Nil_iff)
        from rrel have "upper (rstrip ?x') = upper (rstrip ?x)"
          by (simp add: upper_eq_iff)
        with rnb show "command_of (strip (kw' @ CHR '' '' # arg)) = command_of (strip (kw @ CHR '' '' # arg))"
          unfolding r r' by (simp add: command_of_no_blank)
        from rnb show "arg_of (strip (kw' @ CHR '' '' # arg)) = arg_of (strip (kw @ CHR '' '' # arg))"
          unfolding r r' by (simp add: arg_of_no_blank)
      qed
    next
      case False
      then have "\<not> (\<forall>c\<in>set (CHR '' '' # arg). is_space c)"
        by simp
      then have "rstrip (?x @ CHR '' '' # arg) = ?x @ rstrip (CHR '' '' # arg)"
        and "rstrip (?x' @ CHR '' '' # arg) = ?x' @ rstrip (CHR '' '' # arg)"
        by (rule rstrip_append_text)+
      moreover from False have "rstrip ([CHR '' ''] @ arg) = [CHR '' ''] @ rstrip arg"
        by (rule rstrip_append_text)
      ultimately have r: "strip (kw @ CHR '' '' # arg) = ?x @ CHR '' '' # rstrip arg"
        and r': "strip (kw' @ CHR '' '' # arg) = ?x' @ CHR '' '' # rstrip arg"
        unfolding strip_def l l' by simp_all
      from xrel have up: "upper ?x' = upper ?x"
        by (simp add: upper_eq_iff)
      show ?thesis
      proof (rule serve_read_cong)
        show "strip (kw' @ CHR '' '' # arg) = [] \<longleftrightarrow> strip (kw @ CHR '' '' # arg) = []"
          unfolding r r' by simp
        from xnb up show "command_of (strip (kw' @ CHR '' '' # arg)) = command_of (strip (kw @ CHR '' '' # arg))"
          unfolding r r' by (simp add: command_of_blank)
        from xnb show "arg_of (strip (kw' @ CHR '' '' # arg)) = arg_of (strip (kw @ CHR '' '' # arg))"
          unfolding r r' by (simp add: arg_of_blank)
      qed
    qed
  qed
qed

text \<open>
  Claim C7. Only the first space separates the keyword from the argument, which keeps
  its further spaces as they are; and two reads that differ only in the letter case
  of the keyword are handled alike, with or without an argument.
\<close>

theorem first_blank_splits_keyword_case_ignored:
  assumes "CHR '' '' \<notin> set kw"
  shows "split_first_space (kw @ CHR '' '' # arg) = [kw, arg] \<and>
         command_of (kw @ CHR '' '' # arg) = upper kw \<and>
         arg_of (kw @ CHR '' '' # arg) = arg \<and>
         (upper kw' = upper kw \<longrightarrow>
            serve s (Data (kw' @ CHR '' '' # arg) # evs) st =
              serve s (Data (kw @ CHR '' '' # arg) # evs) st \<and>
            serve s (Data kw' # evs) st = serve s (Data kw # evs) st)"
proof (intro conjI impI)
  from assms show "split_first_space (kw @ CHR '' '' # arg) = [kw, arg]"
    by (rule split_at_first_blank)
  from assms show "command_of (kw @ CHR '' '' # arg) = upper kw"
    by (rule command_of_blank)
  from assms show "arg_of (kw @ CHR '' '' # arg) = arg"
    by (rule arg_of_blank)
next
  assume "upper kw' = upper kw"
  then show "serve s (Data (kw' @ CHR '' '' # arg) # evs) st =
      serve s (Data (kw @ CHR '' '' # arg) # evs) st"
    using assms by (rule keyword_with_arg_case)
next
  assume "upper kw' = upper kw"
  then show "serve s (Data kw' # evs) st = serve s (Data kw # evs) st"
    using assms by (rule keyword_only_case)
qed

theorem first_blank_splits_keyword_case_ignored_witness:
  "CHR '' '' \<notin> set ''ECHO'' \<and>
   split_first_space ''ECHO foo  bar'' = [''ECHO'', ''foo  bar''] \<and>
   command_of ''ECHO foo  bar'' = ''ECHO'' \<and>
   arg_of ''ECHO foo  bar'' = ''foo  bar'' \<and>
   upper ''eChO'' = upper ''ECHO'' \<and>
   serve 3 [Data ''eChO foo  bar''] (new_server\<lparr>running := True\<rparr>) =
     serve 3 [Data ''ECHO foo  bar''] (new_server\<lparr>running := True\<rparr>) \<and>
   serve 3 [Data ''eChO''] (new_server\<lparr>running := True\<rparr>) =
     serve 3 [Data ''ECHO''] (new_server\<lparr>running := True\<rparr>)"
proof -
  have no_blank: "CHR '' '' \<notin> set ''ECHO''"
    by simp
  have same: "upper ''eChO'' = upper ''ECHO''" and up: "upper ''ECHO'' = ''ECHO''"
    by code_simp+
  from first_blank_splits_keyword_case_ignored [OF no_blank, of "''foo  bar''" "''eChO''" 3 "[]"
      "new_server\<lparr>running := True\<rparr>"] same up no_blank
  show ?thesis
    by simp
qed

section \<open>The registry and the EXIT command\<close>

lemma map_fst_dict_set:
  "map fst (dict_set k v d) = (if k \<in> fst ` set d then map fst d else map fst d @ [k])"
  by (induction d) (fastforce simp add: image_iff)+

lemma keys_dict_set: "fst ` set (dict_set k v d) = insert k (fst ` set d)"
proof -
  have "set (map fst (dict_set k v d)) = insert k (fst ` set d)"
    unfolding map_fst_dict_set by auto
  then show ?thesis
    by simp
qed



lemma keys_dict_del: "fst ` set (dict_del k d) = fst ` set d - {k}"
  by (induction d) (auto simp add: dict_del_def)

lemma dict_has_dict_set: "dict_has k (dict_set k v d)"
  by (simp add: dict_has_def keys_dict_set)

lemma not_dict_has_dict_del: "\<not> dict_has k (dict_del k d)"
  by (simp add: dict_has_def keys_dict_del)

lemma register_client_fields [simp]:
  "running (register_client addr s st) = running st"
  "socks (register_client addr s st) = socks st"
  "clients (register_client addr s st) = dict_set addr s (clients st)"
  by (simp_all add: register_client_def)

lemma keys_remove_client:
  "fst ` set (clients (remove_client addr st)) = fst ` set (clients st) - {addr}"
  by (simp add: remove_client_def keys_dict_del dict_has_def)

lemma remove_client_fields [simp]:
  "running (remove_client addr st) = running st"
  "socks (remove_client addr st) = socks st"
  by (simp_all add: remove_client_def)

lemma not_dict_has_remove_client: "\<not> dict_has addr (clients (remove_client addr st))"
  by (simp add: dict_has_def keys_remove_client)

lemma remove_client_absent:
  "\<not> dict_has addr (clients st) \<Longrightarrow> remove_client addr st = st"
  by (simp add: remove_client_def)




lemma process_hello:
  assumes "command_of data = ''HELLO''"
  shows "process_command s data st = handle_hello s (arg_of data) st"
  using assms by (simp add: process_command_def command_handlers_def)

lemma process_echo:
  assumes "command_of data = ''ECHO''"
  shows "process_command s data st = handle_echo s (arg_of data) st"
  using assms by (simp add: process_command_def command_handlers_def)








section \<open>HELLO and ECHO against the table of the specification\<close>

lemma handle_hello_open:
  assumes "\<not> closed (socks st s)"
  shows "handle_hello s arg st = written s (spec_hello_response arg @ [nl]) st"
  using assms by (simp add: handle_hello_def spec_hello_response_def send_response_open)

lemma handle_echo_open:
  assumes "\<not> closed (socks st s)"
  shows "handle_echo s arg st = written s (spec_echo_response arg @ [nl]) st"
  using assms by (simp add: handle_echo_def spec_echo_response_def send_response_open)

text \<open>
  Claim C6. On an open socket the dispatcher answers HELLO and ECHO as the table of
  the specification says: the greeting with the name, \<open>Guest\<close> when the argument is
  absent; the echo of the text, the fixed remark when the text is absent; each answer
  followed by a newline, and nothing else of the server state changed.
\<close>

theorem hello_echo_follow_spec_table:
  assumes "\<not> closed (socks st s)"
  shows "(command_of data = ''HELLO'' \<longrightarrow>
            process_command s data st = written s (spec_hello_response (arg_of data) @ [nl]) st) \<and>
         (command_of data = ''ECHO'' \<longrightarrow>
            process_command s data st = written s (spec_echo_response (arg_of data) @ [nl]) st)"
  using assms by (simp add: process_hello process_echo handle_hello_open handle_echo_open)

theorem hello_echo_follow_spec_table_witness:
  "\<not> closed (socks new_server 3) \<and>
   command_of ''HELLO'' = ''HELLO'' \<and>
   process_command 3 ''HELLO'' new_server =
     written 3 ''Hello, Guest! Welcome to MCP Server.\<newline>'' new_server \<and>
   command_of ''HELLO Ann'' = ''HELLO'' \<and>
   process_command 3 ''HELLO Ann'' new_server =
     written 3 ''Hello, Ann! Welcome to MCP Server.\<newline>'' new_server \<and>
   command_of ''ECHO'' = ''ECHO'' \<and>
   process_command 3 ''ECHO'' new_server =
     written 3 ''ECHO: You didn't provide any text to echo.\<newline>'' new_server \<and>
   command_of ''ECHO foo bar'' = ''ECHO'' \<and>
   process_command 3 ''ECHO foo bar'' new_server =
     written 3 ''ECHO: foo bar\<newline>'' new_server"
proof -
  have opn: "\<not> closed (socks new_server 3)"
    by (simp add: new_server_def)
  have cmds: "command_of ''HELLO'' = ''HELLO''" "command_of ''HELLO Ann'' = ''HELLO''"
    "command_of ''ECHO'' = ''ECHO''" "command_of ''ECHO foo bar'' = ''ECHO''"
    by code_simp+
  have args: "arg_of ''HELLO'' = []" "arg_of ''HELLO Ann'' = ''Ann''"
    "arg_of ''ECHO'' = []" "arg_of ''ECHO foo bar'' = ''foo bar''"
    by code_simp+
  from hello_echo_follow_spec_table [OF opn, of "''HELLO''"]
    hello_echo_follow_spec_table [OF opn, of "''HELLO Ann''"]
    hello_echo_follow_spec_table [OF opn, of "''ECHO''"]
    hello_echo_follow_spec_table [OF opn, of "''ECHO foo bar''"]
  show ?thesis
    using opn
    by (simp add: cmds args spec_hello_response_def spec_echo_response_def nl_def)
qed

section \<open>A read of whitespace only\<close>

lemma strip_all_space:
  assumes "list_all is_space raw"
  shows "strip raw = []"
proof -
  from assms have "dropWhile is_space raw = []"
    by (induction raw) simp_all
  then have "lstrip raw = []"
    by (simp only: lstrip_def)
  then show ?thesis
    by (simp add: strip_def rstrip_def)
qed

lemma strip_Nil: "strip [] = []"
  by (simp add: strip_def lstrip_def rstrip_def)

lemma handle_client_blank:
  assumes "strip raw = []"
  shows "handle_client addr s (Data raw # evs) st =
           (True, cleanup addr s (send_response s welcome_banner (register_client addr s st)))"
  using assms by (simp add: handle_client_def serve_blank)

lemma cleanup_closed: "closed (socks (cleanup addr s st) s)"
  by (simp add: cleanup_def)

lemma cleanup_not_registered: "\<not> dict_has addr (clients (cleanup addr s st))"
  by (simp add: cleanup_def not_dict_has_remove_client)

text \<open>
  Claim C10. A read that holds nothing but whitespace is handled as the empty read
  is: no command is dispatched, the serving loop ends there whatever reads would
  follow, and the connection handler finishes with the socket closed and the peer's
  registry entry gone.
\<close>

theorem blank_read_ends_connection:
  assumes "list_all is_space raw"
  shows "serve s (Data raw # evs) st = (True, st) \<and>
         handle_client addr s (Data raw # evs) st = handle_client addr s (Data [] # evs) st \<and>
         handle_client addr s (Data raw # evs) st =
           (True, cleanup addr s (send_response s welcome_banner (register_client addr s st))) \<and>
         closed (socks (snd (handle_client addr s (Data raw # evs) st)) s) \<and>
         \<not> dict_has addr (clients (snd (handle_client addr s (Data raw # evs) st)))"
proof -
  from assms have blank: "strip raw = []"
    by (rule strip_all_space)
  then have "serve s (Data raw # evs) st = (True, st)"
    by (rule serve_blank)
  moreover note handle_client_blank [OF blank, of addr s evs st]
  moreover note handle_client_blank [OF strip_Nil, of addr s evs st]
  ultimately show ?thesis
    by (simp add: cleanup_closed cleanup_not_registered)
qed

theorem blank_read_ends_connection_witness:
  "list_all is_space '' \<newline>'' \<and>
   serve 3 [Data '' \<newline>'', Data ''HELLO\<newline>''] (new_server\<lparr>running := True\<rparr>) =
     (True, new_server\<lparr>running := True\<rparr>) \<and>
   handle_client (''10.0.0.7'', 40000) 3 [Data '' \<newline>'', Data ''HELLO\<newline>'']
       (new_server\<lparr>running := True\<rparr>) =
     handle_client (''10.0.0.7'', 40000) 3 [Data [], Data ''HELLO\<newline>'']
       (new_server\<lparr>running := True\<rparr>) \<and>
   closed (socks (snd (handle_client (''10.0.0.7'', 40000) 3
      [Data '' \<newline>'', Data ''HELLO\<newline>''] (new_server\<lparr>running := True\<rparr>))) 3) \<and>
   \<not> dict_has (''10.0.0.7'', 40000) (clients (snd (handle_client (''10.0.0.7'', 40000) 3
      [Data '' \<newline>'', Data ''HELLO\<newline>''] (new_server\<lparr>running := True\<rparr>))))"
proof -
  have blank: "list_all is_space '' \<newline>''"
    by code_simp
  note th = blank_read_ends_connection [OF blank, where s = 3 and addr = "(''10.0.0.7'', 40000)"
      and evs = "[Data ''HELLO\<newline>'']" and st = "new_server\<lparr>running := True\<rparr>"]
  from blank th [THEN conjunct1] th [THEN conjunct2, THEN conjunct1]
    th [THEN conjunct2, THEN conjunct2, THEN conjunct2, THEN conjunct1]
    th [THEN conjunct2, THEN conjunct2, THEN conjunct2, THEN conjunct2]
  show ?thesis
    by (intro conjI)
qed

section \<open>The registry over the life of the connections\<close>

lemma remove_client_twice: "remove_client addr (remove_client addr st) = remove_client addr st"
  by (rule remove_client_absent) (rule not_dict_has_remove_client)

lemma keys_registry_step_Connect:
  "fst ` set (clients (registry_step (Connect addr s) st)) = insert addr (fst ` set (clients st))"
  by (simp add: keys_dict_set)

lemma keys_fold_registry_step:
  assumes "all_disconnected ops"
  shows "fst ` set (clients (fold registry_step ops st)) \<subseteq>
           fst ` set (clients st) - {a. Disconnect a \<in> set ops}"
  using assms
proof (induction ops arbitrary: st)
  case Nil
  then show ?case
    by simp
next
  case (Cons op ops)
  show ?case
  proof (cases op)
    case (Connect addr s)
    with Cons.prems have later: "Disconnect addr \<in> set ops" and rest: "all_disconnected ops"
      by simp_all
    from Cons.IH [OF rest, of "register_client addr s st"] later show ?thesis
      unfolding Connect by (auto simp add: keys_dict_set)
  next
    case (Disconnect addr)
    with Cons.prems have rest: "all_disconnected ops"
      by simp
    from Cons.IH [OF rest, of "remove_client addr st"] show ?thesis
      unfolding Disconnect by (auto simp add: keys_remove_client)
  qed
qed

lemma registry_empty_after_all_disconnected:
  assumes "clients st = []" and "all_disconnected ops"
  shows "clients (fold registry_step ops st) = []"
proof -
  from keys_fold_registry_step [OF assms(2), of st] assms(1)
  have "fst ` set (clients (fold registry_step ops st)) = {}"
    by simp
  then show ?thesis
    by simp
qed

lemma close_all_clients_empty:
  assumes "clients st = []"
  shows "close_all_clients st = st"
  using assms by (cases st) (simp add: close_all_clients_def dict_values_def)

text \<open>
  Claim C8. Removing a peer address that the registry does not hold changes nothing,
  so a second removal changes nothing; after a history of registrations and removals
  in which every registration is followed by the removal of its address, in whatever
  order the connections end, a registry that was empty is empty again; and on an
  empty registry the loop of \<open>stop\<close> over the registered sockets closes no socket and
  leaves the registry empty.
\<close>

theorem registry_removal_idempotent_and_empties:
  "(\<not> dict_has addr (clients st) \<longrightarrow> remove_client addr st = st) \<and>
   remove_client addr (remove_client addr st) = remove_client addr st \<and>
   (clients st = [] \<and> all_disconnected ops \<longrightarrow> clients (fold registry_step ops st) = []) \<and>
   (clients st = [] \<longrightarrow> close_all_clients st = st)"
  by (simp add: remove_client_absent remove_client_twice registry_empty_after_all_disconnected
      close_all_clients_empty)

theorem registry_removal_idempotent_and_empties_witness:
  "\<not> dict_has (''10.0.0.7'', 40000) (clients new_server) \<and>
   remove_client (''10.0.0.7'', 40000) new_server = new_server \<and>
   clients new_server = [] \<and>
   all_disconnected [Connect (''10.0.0.7'', 40000) 3, Connect (''10.0.0.8'', 40001) 4,
     Disconnect (''10.0.0.8'', 40001), Connect (''10.0.0.9'', 40002) 5,
     Disconnect (''10.0.0.7'', 40000), Disconnect (''10.0.0.9'', 40002)] \<and>
   clients (fold registry_step [Connect (''10.0.0.7'', 40000) 3, Connect (''10.0.0.8'', 40001) 4,
     Disconnect (''10.0.0.8'', 40001), Connect (''10.0.0.9'', 40002) 5,
     Disconnect (''10.0.0.7'', 40000), Disconnect (''10.0.0.9'', 40002)] new_server) = [] \<and>
   close_all_clients new_server = new_server"
proof -
  let ?ops = "[Connect (''10.0.0.7'', 40000) 3, Connect (''10.0.0.8'', 40001) 4,
     Disconnect (''10.0.0.8'', 40001), Connect (''10.0.0.9'', 40002) 5,
     Disconnect (''10.0.0.7'', 40000), Disconnect (''10.0.0.9'', 40002)]"
  have absent: "\<not> dict_has (''10.0.0.7'', 40000) (clients new_server)"
    and empty: "clients new_server = []"
    by (simp_all add: new_server_def dict_has_def)
  have gone: "all_disconnected ?ops"
    by simp
  note th = registry_removal_idempotent_and_empties [of "(''10.0.0.7'', 40000)" new_server ?ops]
  from th absent have "remove_client (''10.0.0.7'', 40000) new_server = new_server"
    by blast
  moreover from th empty gone have "clients (fold registry_step ?ops new_server) = []"
    by blast
  moreover from th empty have "close_all_clients new_server = new_server"
    by blast
  ultimately show ?thesis
    using absent empty gone by (intro conjI)
qed

section \<open>One read, one command\<close>

lemma serve_waiting:
  assumes "running st" and "\<not> closed (socks st s)"
  shows "serve s [] st = (False, st)"
  using assms by (subst serve.simps) simp

lemma written_fields_open:
  "running (written s bytes st) = running st"
  "closed (socks (written s bytes st) s') = closed (socks st s')"
  by (simp_all add: written_def)

text \<open>
  Claim C1. The connection handler keeps no buffer and looks for no newline: each
  read is stripped and taken as one command. Two commands that arrive in one read
  are answered as a single unknown command whose keyword holds the newline, where
  the Line Framer of the client yields the two lines; and a command that arrives in
  two reads is answered as two unknown commands.
\<close>

theorem coalesced_reads_are_one_command:
  "feed [] ''HELLO\<newline>ECHO hi\<newline>'' = Some ([text_of ''HELLO'', text_of ''ECHO hi''], []) \<and>
   serve 3 [Data ''HELLO\<newline>ECHO hi\<newline>''] (new_server\<lparr>running := True\<rparr>) =
     (False, written 3 ''ERROR: Unknown command: HELLO\<newline>ECHO\<newline>''
        (new_server\<lparr>running := True\<rparr>)) \<and>
   feed_all [] [''HEL'', ''LO\<newline>''] = ([text_of ''HELLO''], [], True) \<and>
   serve 3 [Data ''HEL'', Data ''LO\<newline>''] (new_server\<lparr>running := True\<rparr>) =
     (False, written 3 ''ERROR: Unknown command: HEL\<newline>ERROR: Unknown command: LO\<newline>''
        (new_server\<lparr>running := True\<rparr>))"
proof -
  let ?st = "new_server\<lparr>running := True\<rparr>"
  have run: "running ?st" and opn: "\<not> closed (socks ?st 3)"
    by (simp_all add: new_server_def)
  have framed: "feed [] ''HELLO\<newline>ECHO hi\<newline>'' = Some ([text_of ''HELLO'', text_of ''ECHO hi''], [])"
    "feed_all [] [''HEL'', ''LO\<newline>''] = ([text_of ''HELLO''], [], True)"
    by code_simp+
  have both: "strip ''HELLO\<newline>ECHO hi\<newline>'' = ''HELLO\<newline>ECHO hi''"
    "command_of ''HELLO\<newline>ECHO hi'' = ''HELLO\<newline>ECHO''"
    by code_simp+
  have halves: "strip ''HEL'' = ''HEL''" "command_of ''HEL'' = ''HEL''"
    "strip ''LO\<newline>'' = ''LO''" "command_of ''LO'' = ''LO''"
    by code_simp+
  have one: "serve 3 [Data ''HELLO\<newline>ECHO hi\<newline>''] ?st =
      (False, written 3 ''ERROR: Unknown command: HELLO\<newline>ECHO\<newline>'' ?st)"
    using run opn
    by (simp add: serve_data both process_unknown serve_waiting written_fields_open nl_def)
  have two: "serve 3 [Data ''HEL'', Data ''LO\<newline>''] ?st =
      (False, written 3 ''ERROR: Unknown command: HEL\<newline>ERROR: Unknown command: LO\<newline>'' ?st)"
    using run opn
    by (simp add: serve_data halves process_unknown serve_waiting written_fields_open
        written_written nl_def)
  from framed one two show ?thesis
    by (intro conjI)
qed

section \<open>A busy port at start-up\<close>

lemma start_bind_Exception:
  assumes "bind_raises e port = Some x" and "is_Exception x"
  shows "start e port = ([ServerError (str x), Stopped], None)"
  using assms by (simp add: start_def start_body_def)

lemma start_raises_no_Exception:
  assumes "snd (start e port) = Some x"
  shows "\<not> is_Exception x"
  using assms by (auto simp add: start_def split: prod.splits option.splits if_splits)

lemma main_bind_OSError:
  assumes "bind_raises e 5001 = Some (OSError msg)"
  shows "main e = (0, [Starting 5001, ServerError msg, Stopped])"
proof -
  have "[0..<max_attempts] = 0 # [1..<max_attempts]"
    by (simp add: max_attempts_def upt_rec)
  moreover from assms have "start e 5001 = ([ServerError msg, Stopped], None)"
    using start_bind_Exception [of e 5001 "OSError msg"] by simp
  ultimately show ?thesis
    by (simp add: main_def)
qed

text \<open>
  Claim C2. When the port 5001 is in use, \<open>bind\<close> raises \<open>OSError\<close> inside the \<open>try\<close> of
  \<open>start\<close>, whose \<open>except Exception\<close> logs it and returns. \<open>main\<close> sees \<open>start\<close> return,
  leaves its loop and exits with code 0: no second attempt is made, and no port
  above 5001 is tried, although the port 5002 is free.
\<close>

theorem main_port_busy_exits_zero:
  "main \<lparr>bind_raises = (\<lambda>port. if port = 5001
            then Some (OSError ''[Errno 98] Address already in use'') else None),
         accept_loop_raises = (\<lambda>port. None)\<rparr> =
     (0, [Starting 5001, ServerError ''[Errno 98] Address already in use'', Stopped]) \<and>
   contains ''Address already in use'' ''[Errno 98] Address already in use''"
proof -
  have "contains ''Address already in use'' ''[Errno 98] Address already in use''"
    by code_simp
  then show ?thesis
    by (simp add: main_bind_OSError)
qed

end
